theory Spec2Isabelle
  imports Main "HOL-Library.AList" "HOL-Library.Sublist"
begin

section \<open>The fold state manager of the Swagger editor\<close>

text \<open>
  A shallow embedding of \<^verbatim>\<open>app/scripts/services/fold-state-manager.js\<close>.
  The service keeps a tree of JavaScript objects (\<^verbatim>\<open>foldState\<close>), addresses its
  nodes by arrays of keys, mutates the tree in place, writes it to
  \<^verbatim>\<open>localStorage\<close> and calls the registered change listeners.
\<close>

subsection \<open>JavaScript values\<close>

text \<open>
  The values the tree is made of: objects (own properties in insertion order), the
  booleans stored under \<^verbatim>\<open>$folded\<close>, and \<^verbatim>\<open>null\<close> and
  \<^verbatim>\<open>undefined\<close>, which property reads and \<^verbatim>\<open>JSON.parse\<close> produce.
  Numbers, strings and arrays as property values, and keys inherited from
  \<^verbatim>\<open>Object.prototype\<close> (such as \<^verbatim>\<open>constructor\<close>), are outside the model,
  and so are keys that are array indices (\<^verbatim>\<open>"0"\<close>, \<^verbatim>\<open>"1"\<close>, ...), which
  \<^verbatim>\<open>Object.keys\<close> and \<^verbatim>\<open>JSON.stringify\<close> list before the others.
\<close>

datatype jsval = JUndefined | JNull | JBool bool | JObj "(string \<times> jsval) list"

text \<open>The coercion to boolean that \<^verbatim>\<open>!v\<close> and \<^verbatim>\<open>if (v)\<close> apply.\<close>

fun truthy :: "jsval \<Rightarrow> bool" where
  "truthy JUndefined = False"
| "truthy JNull = False"
| "truthy (JBool b) = b"
| "truthy (JObj kvs) = True"

datatype error =
  TypeError_path_not_array      \<comment> \<open>\<^verbatim>\<open>TypeError('path should be an array.')\<close>\<close>
| Error_wildcard_key            \<comment> \<open>\<^verbatim>\<open>Error('key can not be a wildcard.')\<close>\<close>
| Error_path_end                \<comment> \<open>\<^verbatim>\<open>Error('Path should end with "*" in this method.')\<close>\<close>
| TypeError_property            \<comment> \<open>the runtime's TypeError: a property of \<^verbatim>\<open>null\<close> or
                                    \<^verbatim>\<open>undefined\<close> is read, or (the file is in strict mode) a
                                    property of a primitive is assigned\<close>
| SyntaxError                   \<comment> \<open>raised by \<^verbatim>\<open>JSON.parse\<close>\<close>
| Error_no_localStorage         \<comment> \<open>\<^verbatim>\<open>Error('localStorage was not found.')\<close>\<close>

text \<open>The property read \<^verbatim>\<open>v[key]\<close>.\<close>

fun get_prop :: "jsval \<Rightarrow> string \<Rightarrow> error + jsval" where
  "get_prop (JObj kvs) key = Inr (case map_of kvs key of None \<Rightarrow> JUndefined | Some v \<Rightarrow> v)"
| "get_prop (JBool b) key = Inr JUndefined"
| "get_prop JNull key = Inl TypeError_property"
| "get_prop JUndefined key = Inl TypeError_property"

subsection \<open>References into the tree\<close>

text \<open>
  The tree is built by \<^verbatim>\<open>JSON.parse\<close>, by an object literal and by fresh object
  literals stored into it, so no object is reachable by two ways: a reference to a node is
  the list of keys that leads to it from the root. \<open>deref t a\<close> is the value at address
  \<open>a\<close> (\<^verbatim>\<open>undefined\<close> where a key is missing), and \<open>assign t a key v\<close> is the tree after
  the assignment \<^verbatim>\<open>node[key] = v\<close> for the node at \<open>a\<close>: an existing key keeps its
  place, a new one is added last.
\<close>

type_synonym addr = "string list"

fun deref :: "jsval \<Rightarrow> addr \<Rightarrow> jsval" where
  "deref v [] = v"
| "deref (JObj kvs) (k # ks) = (case map_of kvs k of None \<Rightarrow> JUndefined | Some c \<Rightarrow> deref c ks)"
| "deref v (k # ks) = JUndefined"

fun assign :: "jsval \<Rightarrow> addr \<Rightarrow> string \<Rightarrow> jsval \<Rightarrow> error + jsval" where
  "assign (JObj kvs) [] key v = Inr (JObj (AList.update key v kvs))"
| "assign (JObj kvs) (k # ks) key v =
     (case map_of kvs k of
        None \<Rightarrow> Inl TypeError_property
      | Some c \<Rightarrow>
          (case assign c ks key v of
             Inl e \<Rightarrow> Inl e
           | Inr c' \<Rightarrow> Inr (JObj (AList.update k c' kvs))))"
| "assign u a key v = Inl TypeError_property"

subsection \<open>walkToNode\<close>

text \<open>
  The loop of \<^verbatim>\<open>walkToNode\<close> on the tree \<open>t\<close>, with \<open>current\<close> the node reached so
  far and the third argument what is left of the caller's array. Each round shifts the
  first key off the array; \<^verbatim>\<open>previus\<close> of the source is \<open>current\<close> at the start of
  the round. The result is the node returned or the error thrown, what is left of the
  array, and the tree.
\<close>

fun walk :: "jsval \<Rightarrow> addr \<Rightarrow> string list \<Rightarrow> (error + addr) \<times> string list \<times> jsval" where
  "walk t current [] = (Inr current, [], t)"
| "walk t current (key # path) =
     (if key = ''*'' then (Inl Error_wildcard_key, path, t)
      else
        (case get_prop (deref t current) key of
           Inl e \<Rightarrow> (Inl e, path, t)
         | Inr v \<Rightarrow>
             if truthy v then walk t (current @ [key]) path
             else
               (case assign t current key (JObj [(''$folded'', JBool False)]) of
                  Inl e \<Rightarrow> (Inl e, path, t)
                | Inr t' \<Rightarrow> walk t' current path)))"

subsection \<open>JSON.stringify\<close>

text \<open>
  \<^verbatim>\<open>JSON.stringify\<close> on the values of the model, as ECMAScript defines it: no white
  space, the properties of an object in their order, a property whose value is
  \<^verbatim>\<open>undefined\<close> left out, and keys quoted with the escapes of
  \<^verbatim>\<open>QuoteJSONString\<close>. Characters are code units below 256. For \<^verbatim>\<open>undefined\<close>
  itself the built-in returns \<^verbatim>\<open>undefined\<close>, which \<^verbatim>\<open>setItem\<close> stores as
  the text \<^verbatim>\<open>undefined\<close>.
\<close>

definition hex_digit :: "nat \<Rightarrow> char" where
  "hex_digit n = ''0123456789abcdef'' ! (n mod 16)"

definition quote_char :: "char \<Rightarrow> string" where
  "quote_char c =
     (let n = (of_char c :: nat) in
      if n = 8 then [CHR 0x5C, CHR ''b'']
      else if n = 9 then [CHR 0x5C, CHR ''t'']
      else if n = 10 then [CHR 0x5C, CHR ''n'']
      else if n = 12 then [CHR 0x5C, CHR ''f'']
      else if n = 13 then [CHR 0x5C, CHR ''r'']
      else if n = 34 then [CHR 0x5C, CHR 0x22]
      else if n = 92 then [CHR 0x5C, CHR 0x5C]
      else if n < 32 then [CHR 0x5C, CHR ''u'', CHR ''0'', CHR ''0'', hex_digit (n div 16), hex_digit n]
      else [c])"

definition JSON_quote :: "string \<Rightarrow> string" where
  "JSON_quote s = CHR 0x22 # concat (map quote_char s) @ [CHR 0x22]"

fun join :: "string \<Rightarrow> string list \<Rightarrow> string" where
  "join sep [] = []"
| "join sep [x] = x"
| "join sep (x # y # ys) = x @ sep @ join sep (y # ys)"

fun JSON_stringify :: "jsval \<Rightarrow> string"
  and stringify_props :: "(string \<times> jsval) list \<Rightarrow> string list" where
  "JSON_stringify JUndefined = ''undefined''"
| "JSON_stringify JNull = ''null''"
| "JSON_stringify (JBool b) = (if b then ''true'' else ''false'')"
| "JSON_stringify (JObj kvs) = ''{'' @ join '','' (stringify_props kvs) @ ''}''"
| "stringify_props [] = []"
| "stringify_props ((k, v) # kvs) =
     (if v = JUndefined then stringify_props kvs
      else (JSON_quote k @ '':'' @ JSON_stringify v) # stringify_props kvs)"

subsection \<open>JSON.parse on the texts of fold trees\<close>

text \<open>
  \<^verbatim>\<open>JSON.parse\<close> is a built-in of the runtime; the construction of the service
  below takes it as a parameter. \<open>JSON_parse_tree\<close> is the built-in on the JSON texts
  whose values are in the model: objects, \<^verbatim>\<open>true\<close>, \<^verbatim>\<open>false\<close> and
  \<^verbatim>\<open>null\<close>, with white space between tokens and keys written without escapes.
  A key given twice keeps its first place and its last value. On a text that is not JSON
  it answers \<open>SyntaxError\<close>, as the built-in does; it also answers \<open>SyntaxError\<close> on
  the JSON texts it does not cover (numbers, strings and arrays as values, escapes in
  keys), which the built-in accepts. The first argument of \<open>parse_value\<close> bounds the
  number of nested calls; a text has fewer values and members than characters.
\<close>

definition is_ws :: "char \<Rightarrow> bool" where
  "is_ws c = (of_char c \<in> {32, 9, 10, 13 :: nat})"

definition skip_ws :: "string \<Rightarrow> string" where
  "skip_ws cs = dropWhile is_ws cs"

fun parse_key :: "string \<Rightarrow> (string \<times> string) option" where
  "parse_key [] = None"
| "parse_key (c # cs) =
     (if c = CHR 0x22 then Some ([], cs)
      else if c = CHR 0x5C \<or> (of_char c :: nat) < 32 then None
      else (case parse_key cs of None \<Rightarrow> None | Some (k, r) \<Rightarrow> Some (c # k, r)))"

fun parse_value :: "nat \<Rightarrow> string \<Rightarrow> (jsval \<times> string) option"
  and parse_members ::
    "nat \<Rightarrow> (string \<times> jsval) list \<Rightarrow> string \<Rightarrow> (jsval \<times> string) option" where
  "parse_value 0 cs = None"
| "parse_value (Suc n) cs =
     (let r = skip_ws cs in
      if take 4 r = ''null'' then Some (JNull, drop 4 r)
      else if take 4 r = ''true'' then Some (JBool True, drop 4 r)
      else if take 5 r = ''false'' then Some (JBool False, drop 5 r)
      else if take 1 r = ''{'' then
        (if take 1 (skip_ws (drop 1 r)) = ''}''
         then Some (JObj [], drop 1 (skip_ws (drop 1 r)))
         else parse_members n [] (drop 1 r))
      else None)"
| "parse_members 0 acc cs = None"
| "parse_members (Suc n) acc cs =
     (let r = skip_ws cs in
      if take 1 r = [CHR 0x22] then
        (case parse_key (drop 1 r) of
           None \<Rightarrow> None
         | Some (k, r1) \<Rightarrow>
             if take 1 (skip_ws r1) = '':'' then
               (case parse_value n (drop 1 (skip_ws r1)) of
                  None \<Rightarrow> None
                | Some (v, r2) \<Rightarrow>
                    if take 1 (skip_ws r2) = '','' then
                      parse_members n (AList.update k v acc) (drop 1 (skip_ws r2))
                    else if take 1 (skip_ws r2) = ''}'' then
                      Some (JObj (AList.update k v acc), drop 1 (skip_ws r2))
                    else None)
             else None)
      else None)"

definition JSON_parse_tree :: "string \<Rightarrow> error + jsval" where
  "JSON_parse_tree text =
     (case parse_value (Suc (length text)) text of
        None \<Rightarrow> Inl SyntaxError
      | Some (v, r) \<Rightarrow> if skip_ws r = [] then Inr v else Inl SyntaxError)"

subsection \<open>The state of the service\<close>

text \<open>
  The variables of the service's closure. \<^verbatim>\<open>defaultState\<close> is bound to the object
  of the literal; \<^verbatim>\<open>foldState\<close> is bound either to the object that
  \<^verbatim>\<open>JSON.parse\<close> returned or, by \<^verbatim>\<open>foldState = defaultState\<close>, to the very
  object of \<^verbatim>\<open>defaultState\<close>. The store therefore has two cells, and the variable
  \<^verbatim>\<open>foldState\<close> is a reference to one of them.

  A change listener is known by its identity only (a number). The service calls
  listeners and does nothing with what they return; \<open>calls\<close> records each call with
  its arguments, in order. Listeners that throw or call back into the service are
  outside the model, and so is a \<^verbatim>\<open>setItem\<close> that fails for lack of space.
\<close>

datatype ref = DefaultRef | ParsedRef

datatype cbarg = NodeArg addr | ValueArg jsval

record state =
  defaultObj :: jsval
  parsedObj :: jsval
  foldState :: ref
  localStorage :: "string \<rightharpoonup> string"
  changeListeners :: "nat list"
  calls :: "(nat \<times> cbarg list) list"

definition defaultState :: jsval where
  "defaultState =
     JObj [(''foldState'',
       JObj [(''info'', JObj [(''$folded'', JBool False)]),
             (''securityDefinitions'', JObj [(''$folded'', JBool False)]),
             (''tags'', JObj [(''$folded'', JBool False)]),
             (''paths'', JObj [(''$folded'', JBool False)]),
             (''definitions'', JObj [(''$folded'', JBool False)])])]"

definition tree :: "state \<Rightarrow> jsval" where
  "tree s = (case foldState s of DefaultRef \<Rightarrow> defaultObj s | ParsedRef \<Rightarrow> parsedObj s)"

definition set_tree :: "jsval \<Rightarrow> state \<Rightarrow> state" where
  "set_tree t s =
     (case foldState s of
        DefaultRef \<Rightarrow> s\<lparr>defaultObj := t\<rparr>
      | ParsedRef \<Rightarrow> s\<lparr>parsedObj := t\<rparr>)"

text \<open>
  The body of the service function up to the first function declaration.
  \<^verbatim>\<open>JSON.parse\<close> is a built-in of the runtime and is a parameter here: it returns
  a value or throws a \<^verbatim>\<open>SyntaxError\<close>. \<^verbatim>\<open>getItem\<close> returns \<^verbatim>\<open>null\<close>
  for a missing key, which \<^verbatim>\<open>JSON.parse\<close> reads as the text \<^verbatim>\<open>null\<close>.
  \<open>None\<close> for \<^verbatim>\<open>window.localStorage\<close> is a browser without it.
\<close>

definition construct ::
    "(string \<Rightarrow> error + jsval) \<Rightarrow> (string \<rightharpoonup> string) option \<Rightarrow> error + state" where
  "construct JSON_parse window_localStorage =
     (case window_localStorage of
        None \<Rightarrow> Inl Error_no_localStorage
      | Some store \<Rightarrow>
          (case JSON_parse (case store ''foldState'' of None \<Rightarrow> ''null'' | Some text \<Rightarrow> text) of
             Inl e \<Rightarrow> Inl e
           | Inr v \<Rightarrow>
               Inr \<lparr>defaultObj = defaultState, parsedObj = v,
                    foldState = (if truthy v then ParsedRef else DefaultRef),
                    localStorage = store, changeListeners = [], calls = []\<rparr>))"

definition walkToNode :: "string list \<Rightarrow> state \<Rightarrow> (error + addr) \<times> string list \<times> state" where
  "walkToNode path s = (case walk (tree s) [] path of (r, path', t') \<Rightarrow> (r, path', set_tree t' s))"

definition invokeChangeListeners :: "cbarg list \<Rightarrow> state \<Rightarrow> state" where
  "invokeChangeListeners args s =
     s\<lparr>localStorage := (localStorage s)(''foldState'' \<mapsto> JSON_stringify (tree s)),
       calls := calls s @ map (\<lambda>fn. (fn, args)) (changeListeners s)\<rparr>"

subsection \<open>Single-node operations\<close>

text \<open>
  The argument a caller passes as \<^verbatim>\<open>path\<close>: an array of strings, or anything
  else (\<^verbatim>\<open>_.isArray\<close> tells them apart). The array is an object of the caller's
  that \<^verbatim>\<open>walkToNode\<close> shifts keys off, so every operation also returns the
  argument as the call leaves it.
\<close>

datatype jsarg = Array "string list" | NotArray jsval

text \<open>
  \<^verbatim>\<open>changeFold(path, value)\<close>; \<open>None\<close> is the call without \<^verbatim>\<open>value\<close>
  (\<^verbatim>\<open>value === undefined\<close>), for which the new value is \<^verbatim>\<open>!node.$folded\<close>.
\<close>

definition changeFold ::
    "string list \<Rightarrow> bool option \<Rightarrow> state \<Rightarrow> (error + unit) \<times> string list \<times> state" where
  "changeFold path val s =
     (case walkToNode path s of
        (Inl e, path', s') \<Rightarrow> (Inl e, path', s')
      | (Inr node, path', s') \<Rightarrow>
          if truthy (deref (tree s') node) then
            (case (case val of
                     Some b \<Rightarrow> Inr b
                   | None \<Rightarrow>
                       (case get_prop (deref (tree s') node) ''$folded'' of
                          Inl e \<Rightarrow> Inl e
                        | Inr f \<Rightarrow> Inr (\<not> truthy f))) of
               Inl e \<Rightarrow> (Inl e, path', s')
             | Inr b \<Rightarrow>
                 (case assign (tree s') node ''$folded'' (JBool b) of
                    Inl e \<Rightarrow> (Inl e, path', s')
                  | Inr t' \<Rightarrow>
                      (Inr (), path',
                       invokeChangeListeners [NodeArg node, ValueArg (JBool b)] (set_tree t' s'))))
          else (Inr (), path', s'))"

definition foldNode :: "jsarg \<Rightarrow> state \<Rightarrow> (error + unit) \<times> jsarg \<times> state" where
  "foldNode arg s =
     (case arg of
        NotArray v \<Rightarrow> (Inl TypeError_path_not_array, arg, s)
      | Array path \<Rightarrow>
          (case changeFold path (Some True) s of (r, path', s') \<Rightarrow> (r, Array path', s')))"

definition unfold :: "jsarg \<Rightarrow> state \<Rightarrow> (error + unit) \<times> jsarg \<times> state" where
  "unfold arg s =
     (case arg of
        NotArray v \<Rightarrow> (Inl TypeError_path_not_array, arg, s)
      | Array path \<Rightarrow>
          (case changeFold path (Some False) s of (r, path', s') \<Rightarrow> (r, Array path', s')))"

definition toggleFold :: "jsarg \<Rightarrow> state \<Rightarrow> (error + unit) \<times> jsarg \<times> state" where
  "toggleFold arg s =
     (case arg of
        NotArray v \<Rightarrow> (Inl TypeError_path_not_array, arg, s)
      | Array path \<Rightarrow>
          (case changeFold path None s of (r, path', s') \<Rightarrow> (r, Array path', s')))"

text \<open>
  \<^verbatim>\<open>isFolded(path)\<close>: the value of \<^verbatim>\<open>node.$folded\<close>, or \<^verbatim>\<open>undefined\<close>
  when the function falls off its end.
\<close>

definition isFolded :: "jsarg \<Rightarrow> state \<Rightarrow> (error + jsval) \<times> jsarg \<times> state" where
  "isFolded arg s =
     (case arg of
        NotArray v \<Rightarrow> (Inl TypeError_path_not_array, arg, s)
      | Array path \<Rightarrow>
          (case walkToNode path s of
             (Inl e, path', s') \<Rightarrow> (Inl e, Array path', s')
           | (Inr node, path', s') \<Rightarrow>
               if truthy (deref (tree s') node)
               then (get_prop (deref (tree s') node) ''$folded'', Array path', s')
               else (Inr JUndefined, Array path', s')))"

lemma walk_single_not_wildcard: "walk t c [n] = (Inr node, p, t') \<Longrightarrow> n \<noteq> ''*''"
  by (auto split: if_splits)

lemma length_dropWhile_le_length: "length (dropWhile P xs) \<le> length xs"
  by (induction xs) auto

subsection \<open>visit and toggleFoldAll\<close>

text \<open>
  \<^verbatim>\<open>visit(path, fn)\<close> on the tree; \<open>fn\<close> takes the node and the tree and returns
  the tree it leaves, or the error it throws. \<open>visit_children\<close> is the
  \<^verbatim>\<open>forEach\<close> over \<^verbatim>\<open>Object.keys(root)\<close>, with \<open>rest\<close> the keys after the
  first wildcard (\<^verbatim>\<open>restOfPath.slice(1)\<close>), so that
  \<^verbatim>\<open>_.isEqual(restOfPath, ['*'])\<close> is \<open>rest = []\<close>. The test
  \<^verbatim>\<open>_.isObject(root)\<close> of lodash is the case distinction on the value of the root:
  of the values of the model, the objects pass it.

  Two facts of the runtime show in the model. \<^verbatim>\<open>path.splice(0, -1)\<close> removes
  nothing and returns the empty array (a negative delete count is taken as zero), so the
  node looked up for a child is \<^verbatim>\<open>walkToNode([nodeName])\<close>, from the root of the
  tree. And \<^verbatim>\<open>walkToNode(pathToRoot)\<close> has emptied \<^verbatim>\<open>pathToRoot\<close> when it
  returns, so \<^verbatim>\<open>newPath\<close> is \<^verbatim>\<open>[nodeName].concat(restOfPath.slice(1))\<close>.
\<close>

function visit ::
    "(addr \<Rightarrow> jsval \<Rightarrow> error + jsval) \<Rightarrow> string list \<Rightarrow> jsval \<Rightarrow>
       (error + unit) \<times> string list \<times> jsval"
  and visit_children ::
    "(addr \<Rightarrow> jsval \<Rightarrow> error + jsval) \<Rightarrow> string list \<Rightarrow> string list \<Rightarrow> jsval \<Rightarrow>
       (error + unit) \<times> jsval" where
  "visit fn path t =
     (if path = [] \<or> last path \<noteq> ''*'' then
        (case walk t [] path of
           (Inl e, path', t') \<Rightarrow> (Inl e, path', t')
         | (Inr node, path', t') \<Rightarrow>
             if truthy (deref t' node) then
               (case fn node t' of
                  Inl e \<Rightarrow> (Inl e, path', t')
                | Inr t'' \<Rightarrow> (Inr (), path', t''))
             else (Inr (), path', t'))
      else
        (case walk t [] (takeWhile (\<lambda>k. k \<noteq> ''*'') path) of
           (Inl e, pathToRoot, t') \<Rightarrow> (Inl e, path, t')
         | (Inr root, pathToRoot, t') \<Rightarrow>
             (case deref t' root of
                JObj kvs \<Rightarrow>
                  (case visit_children fn (map fst kvs) (tl (dropWhile (\<lambda>k. k \<noteq> ''*'') path)) t' of
                     (r, t'') \<Rightarrow> (r, path, t''))
              | v \<Rightarrow> (Inr (), path, t'))))"
| "visit_children fn [] rest t = (Inr (), t)"
| "visit_children fn (nodeName # names) rest t =
     (if nodeName = ''$folded'' then visit_children fn names rest t
      else
        (case walk t [] [nodeName] of
           (Inl e, p, t') \<Rightarrow> (Inl e, t')
         | (Inr node, p, t') \<Rightarrow>
             if rest = [] then
               (case fn node t' of
                  Inl e \<Rightarrow> (Inl e, t')
                | Inr t'' \<Rightarrow> visit_children fn names rest t'')
             else
               (case visit fn (nodeName # rest) t' of
                  (Inl e, p', t'') \<Rightarrow> (Inl e, t'')
                | (Inr u, p', t'') \<Rightarrow> visit_children fn names rest t'')))"
  by pat_completeness auto

termination
  apply (relation "inv_image (less_than <*lex*> less_than)
     (\<lambda>x. case x of
        Inl (fn, path, t) \<Rightarrow> (length (dropWhile (\<lambda>k. k \<noteq> ''*'') path), 0)
      | Inr (fn, names, rest, t) \<Rightarrow> (length rest, Suc (length names)))")
  subgoal by auto
  subgoal for fn path t
    by (cases "dropWhile (\<lambda>k. k \<noteq> ''*'') path") auto
  subgoal by simp
  subgoal by simp
  subgoal
    by (auto dest!: walk_single_not_wildcard[OF sym]
        simp: length_dropWhile_le_length le_neq_implies_less)
  subgoal by simp
  done

text \<open>The function \<^verbatim>\<open>toggleFoldAll\<close> passes to \<^verbatim>\<open>visit\<close>.\<close>

definition toggle_node :: "addr \<Rightarrow> jsval \<Rightarrow> error + jsval" where
  "toggle_node node t =
     (case get_prop (deref t node) ''$folded'' of
        Inl e \<Rightarrow> Inl e
      | Inr f \<Rightarrow> assign t node ''$folded'' (JBool (\<not> truthy f)))"

definition toggleFoldAll :: "jsarg \<Rightarrow> state \<Rightarrow> (error + unit) \<times> jsarg \<times> state" where
  "toggleFoldAll arg s =
     (case arg of
        NotArray v \<Rightarrow> (Inl TypeError_path_not_array, arg, s)
      | Array path \<Rightarrow>
          (case visit toggle_node path (tree s) of
             (Inl e, path', t') \<Rightarrow> (Inl e, Array path', set_tree t' s)
           | (Inr u, path', t') \<Rightarrow>
               (Inr (), Array path', invokeChangeListeners [] (set_tree t' s))))"

subsection \<open>isAllFolded\<close>

text \<open>
  \<^verbatim>\<open>isAllFolded(path)\<close> on the tree, with \<open>every_child\<close> the \<^verbatim>\<open>every\<close> over
  \<^verbatim>\<open>Object.keys(root)\<close>, which stops at the first \<^verbatim>\<open>false\<close>. As in
  \<^verbatim>\<open>visit\<close>, \<open>rest\<close> is \<^verbatim>\<open>restOfPath.slice(1)\<close>, the child's node is
  \<^verbatim>\<open>walkToNode([nodeName])\<close>, and the path of the recursive call starts at
  \<^verbatim>\<open>nodeName\<close>. The caller's array is left as it was.
\<close>

function isAllFolded_tree :: "string list \<Rightarrow> jsval \<Rightarrow> (error + bool) \<times> jsval"
  and every_child :: "string list \<Rightarrow> string list \<Rightarrow> jsval \<Rightarrow> (error + bool) \<times> jsval" where
  "isAllFolded_tree path t =
     (if path = [] \<or> last path \<noteq> ''*'' then (Inl Error_path_end, t)
      else
        (case walk t [] (takeWhile (\<lambda>k. k \<noteq> ''*'') path) of
           (Inl e, pathToRoot, t') \<Rightarrow> (Inl e, t')
         | (Inr root, pathToRoot, t') \<Rightarrow>
             (case deref t' root of
                JObj kvs \<Rightarrow> every_child (map fst kvs) (tl (dropWhile (\<lambda>k. k \<noteq> ''*'') path)) t'
              | v \<Rightarrow> (Inr False, t'))))"
| "every_child [] rest t = (Inr True, t)"
| "every_child (nodeName # names) rest t =
     (if nodeName = ''$folded'' then every_child names rest t
      else
        (case walk t [] [nodeName] of
           (Inl e, p, t') \<Rightarrow> (Inl e, t')
         | (Inr node, p, t') \<Rightarrow>
             if \<not> truthy (deref t' node) then (Inr False, t')
             else if rest = [] then
               (case get_prop (deref t' node) ''$folded'' of
                  Inl e \<Rightarrow> (Inl e, t')
                | Inr f \<Rightarrow> if \<not> truthy f then every_child names rest t' else (Inr False, t'))
             else
               (case isAllFolded_tree (nodeName # rest) t' of
                  (Inl e, t'') \<Rightarrow> (Inl e, t'')
                | (Inr b, t'') \<Rightarrow> if b then every_child names rest t'' else (Inr False, t''))))"
  by pat_completeness auto
termination
  apply (relation "inv_image (less_than <*lex*> less_than)
     (\<lambda>x. case x of
        Inl (path, t) \<Rightarrow> (length (dropWhile (\<lambda>k. k \<noteq> ''*'') path), 0)
      | Inr (names, rest, t) \<Rightarrow> (length rest, Suc (length names)))")
  subgoal by auto
  subgoal for path t
    by (cases "dropWhile (\<lambda>k. k \<noteq> ''*'') path") auto
  subgoal by simp
  subgoal by simp
  subgoal
    by (auto dest!: walk_single_not_wildcard[OF sym]
        simp: length_dropWhile_le_length le_neq_implies_less)
  subgoal by simp
  done

definition isAllFolded :: "jsarg \<Rightarrow> state \<Rightarrow> (error + bool) \<times> jsarg \<times> state" where
  "isAllFolded arg s =
     (case arg of
        NotArray v \<Rightarrow> (Inl TypeError_path_not_array, arg, s)
      | Array path \<Rightarrow>
          (case isAllFolded_tree path (tree s) of (r, t') \<Rightarrow> (r, arg, set_tree t' s)))"

subsection \<open>onFoldChanged and reset\<close>

text \<open>\<^verbatim>\<open>changeListeners\<close> is a \<^verbatim>\<open>Set\<close>: it keeps insertion order and adds a
  member once.\<close>

definition onFoldChanged :: "nat \<Rightarrow> state \<Rightarrow> state" where
  "onFoldChanged fn s =
     (if fn \<in> set (changeListeners s) then s
      else s\<lparr>changeListeners := changeListeners s @ [fn]\<rparr>)"

definition reset :: "state \<Rightarrow> state" where
  "reset s = s\<lparr>localStorage := (localStorage s)(''foldState'' \<mapsto> JSON_stringify (defaultObj s))\<rparr>"

subsection \<open>Two services\<close>

text \<open>
  \<open>fresh_service\<close> is the service built in a browser whose storage has no
  \<^verbatim>\<open>foldState\<close> item. \<open>pets_service\<close> is the service built over a stored tree
  with one path under \<^verbatim>\<open>paths\<close>, after two listeners were registered (the
  first of them twice).
\<close>

definition fresh_service :: state where
  "fresh_service =
     \<lparr>defaultObj = defaultState, parsedObj = JNull, foldState = DefaultRef,
      localStorage = Map.empty, changeListeners = [], calls = []\<rparr>"

definition pets_text :: string where
  \<open>pets_text = ''{"paths":{"$folded":false,"/pets":{"$folded":true}}}''\<close>

definition pets_tree :: jsval where
  "pets_tree =
     JObj [(''paths'', JObj [(''$folded'', JBool False),
                            (''/pets'', JObj [(''$folded'', JBool True)])])]"

definition pets_service :: state where
  "pets_service =
     \<lparr>defaultObj = defaultState, parsedObj = pets_tree, foldState = ParsedRef,
      localStorage = [''foldState'' \<mapsto> pets_text], changeListeners = [1, 2], calls = []\<rparr>"

section \<open>Properties\<close>

subsection \<open>The two services are what construction gives\<close>

lemma fresh_service_constructed: "construct JSON_parse_tree (Some Map.empty) = Inr fresh_service"
proof -
  have "JSON_parse_tree ''null'' = Inr JNull" by code_simp
  then show ?thesis by (simp add: construct_def fresh_service_def)
qed

lemma pets_service_constructed:
  "map_sum id (onFoldChanged 2 \<circ> onFoldChanged 1 \<circ> onFoldChanged 1) (construct JSON_parse_tree (Some [''foldState'' \<mapsto> pets_text]))
     = Inr pets_service"
proof -
  have "JSON_parse_tree pets_text = Inr pets_tree" by code_simp
  then show ?thesis by (simp add: construct_def pets_service_def onFoldChanged_def pets_tree_def)
qed

subsection \<open>References, assignments and the walk\<close>

lemma deref_append: "deref t (a @ b) = deref (deref t a) b"
proof (induction a arbitrary: t)
  case Nil
  show ?case by simp
next
  case (Cons k ks)
  show ?case
  proof (cases t)
    case (JObj kvs)
    then show ?thesis using Cons by (cases "map_of kvs k"; cases b) simp_all
  qed (cases b; simp)+
qed

lemma assign_object:
  "deref t cur = JObj kvs \<Longrightarrow>
     \<exists>t'. assign t cur k v = Inr t' \<and> deref t' cur = JObj (AList.update k v kvs)"
proof (induction cur arbitrary: t)
  case Nil
  then show ?case by simp
next
  case (Cons a as)
  then obtain kvs0 c where t: "t = JObj kvs0" and c: "map_of kvs0 a = Some c" and d: "deref c as = JObj kvs"
    by (cases t) (auto split: option.splits)
  from Cons.IH[OF d] obtain c' where "assign c as k v = Inr c'" "deref c' as = JObj (AList.update k v kvs)"
    by blast
  then show ?case using t c by (simp add: update_conv')
qed


lemma walk_returns_empty: "walk t cur p = (Inr a, p', t') \<Longrightarrow> p' = []"
  by (induction t cur p rule: walk.induct) (auto split: if_splits sum.splits)



lemma walk_existing:
  "deref t (cur @ p) = JObj kvs \<Longrightarrow> ''*'' \<notin> set p \<Longrightarrow> walk t cur p = (Inr (cur @ p), [], t)"
proof (induction p arbitrary: cur)
  case Nil
  then show ?case by simp
next
  case (Cons k ks)
  have d: "deref (deref t cur) (k # ks) = JObj kvs" using Cons.prems(1) by (simp add: deref_append)
  then obtain kvs0 c where o: "deref t cur = JObj kvs0" and c: "map_of kvs0 k = Some c" and dc: "deref c ks = JObj kvs"
    by (cases "deref t cur") (auto split: option.splits)
  have "truthy c" using dc by (cases c; cases ks) simp_all
  moreover have "deref t ((cur @ [k]) @ ks) = JObj kvs" using Cons.prems(1) by simp
  ultimately show ?case using Cons.IH[of "cur @ [k]"] Cons.prems(2) o c by auto
qed



lemma set_tree_same [simp]: "set_tree (tree s) s = s"
  by (cases "foldState s") (simp_all add: set_tree_def tree_def)

lemma tree_set_tree [simp]: "tree (set_tree t s) = t"
  by (cases "foldState s") (simp_all add: set_tree_def tree_def)

lemma walkToNode_returns_empty: "walkToNode p s = (Inr a, p', s') \<Longrightarrow> p' = []"
  by (auto simp: walkToNode_def split: prod.splits dest: walk_returns_empty)

lemma changeFold_returns_empty: "changeFold p v s = (Inr u, p', s') \<Longrightarrow> p' = []"
  by (auto simp: changeFold_def split: prod.splits sum.splits if_splits option.splits
      dest: walkToNode_returns_empty)



subsection \<open>Nodes that exist\<close>

text \<open>
  For a path of concrete keys that leads to an object of the tree, \<^verbatim>\<open>walkToNode\<close>
  returns that object and changes nothing (\<open>walk_existing\<close>). On such paths
  \<^verbatim>\<open>fold\<close> and \<^verbatim>\<open>unfold\<close> set the marker that \<^verbatim>\<open>isFolded\<close> then reads,
  and two calls of \<^verbatim>\<open>toggleFold\<close> give the tree back when the marker is a boolean.
\<close>

lemma assign_back:
  "deref t p = JObj kvs \<Longrightarrow> map_of kvs k = Some v0 \<Longrightarrow> assign t p k v = Inr t1 \<Longrightarrow>
     assign t1 p k v0 = Inr t"
proof (induction p arbitrary: t t1)
  case Nil
  then show ?case
    by (auto simp: update_triv)
next
  case (Cons a as)
  then obtain kvs0 c where t: "t = JObj kvs0" and c: "map_of kvs0 a = Some c"
    and d: "deref c as = JObj kvs"
    by (cases t) (auto split: option.splits)
  from Cons.prems(3) t c obtain c' where a: "assign c as k v = Inr c'"
    and t1: "t1 = JObj (AList.update a c' kvs0)"
    by (auto split: sum.splits)
  from Cons.IH[OF d Cons.prems(2) a] have "assign c' as k v0 = Inr c" .
  then show ?case using t t1 c by (simp add: update_conv' update_triv)
qed

lemma tree_invokeChangeListeners [simp]: "tree (invokeChangeListeners args s) = tree s"
  by (cases "foldState s") (simp_all add: invokeChangeListeners_def tree_def)

lemma changeFold_existing:
  assumes d: "deref (tree s) p = JObj kvs" and n: "''*'' \<notin> set p"
  shows "\<exists>t1. assign (tree s) p ''$folded'' (JBool b) = Inr t1
           \<and> deref t1 p = JObj (AList.update ''$folded'' (JBool b) kvs)
           \<and> changeFold p (Some b) s =
               (Inr (), [], invokeChangeListeners [NodeArg p, ValueArg (JBool b)] (set_tree t1 s))"
proof -
  have w: "walk (tree s) [] p = (Inr p, [], tree s)"
    using walk_existing[of "tree s" "[]" p kvs] d n by simp
  from assign_object[OF d, of "''$folded''" "JBool b"] obtain t1 where
    a: "assign (tree s) p ''$folded'' (JBool b) = Inr t1"
    and d1: "deref t1 p = JObj (AList.update ''$folded'' (JBool b) kvs)"
    by blast
  have "changeFold p (Some b) s =
          (Inr (), [], invokeChangeListeners [NodeArg p, ValueArg (JBool b)] (set_tree t1 s))"
    using w d a by (simp add: changeFold_def walkToNode_def)
  with a d1 show ?thesis by blast
qed

lemma changeFold_then_isFolded:
  assumes d: "deref (tree s) p = JObj kvs" and n: "''*'' \<notin> set p"
  shows "fst (isFolded (Array p) (snd (snd (changeFold p (Some b) s)))) = Inr (JBool b)"
proof -
  from changeFold_existing[OF d n, of b] obtain t1 where
    d1: "deref t1 p = JObj (AList.update ''$folded'' (JBool b) kvs)"
    and c: "changeFold p (Some b) s =
               (Inr (), [], invokeChangeListeners [NodeArg p, ValueArg (JBool b)] (set_tree t1 s))"
    by blast
  have w: "walk t1 [] p = (Inr p, [], t1)"
    using walk_existing[of t1 "[]" p] d1 n by simp
  show ?thesis using c w d1 by (simp add: isFolded_def walkToNode_def update_conv')
qed

lemma fold_then_isFolded_existing:
  assumes "deref (tree s) p = JObj kvs" and "''*'' \<notin> set p"
  shows "fst (isFolded (Array p) (snd (snd (foldNode (Array p) s)))) = Inr (JBool True)"
    and "fst (isFolded (Array p) (snd (snd (unfold (Array p) s)))) = Inr (JBool False)"
  using changeFold_then_isFolded[OF assms, of True] changeFold_then_isFolded[OF assms, of False]
  by (auto simp: foldNode_def unfold_def split: prod.splits)

lemma toggle_existing:
  assumes d: "deref (tree s) p = JObj kvs" and n: "''*'' \<notin> set p"
    and m: "map_of kvs ''$folded'' = Some (JBool b)"
  shows "\<exists>t1. assign (tree s) p ''$folded'' (JBool (\<not> b)) = Inr t1
           \<and> deref t1 p = JObj (AList.update ''$folded'' (JBool (\<not> b)) kvs)
           \<and> changeFold p None s =
               (Inr (), [], invokeChangeListeners [NodeArg p, ValueArg (JBool (\<not> b))] (set_tree t1 s))"
proof -
  have w: "walk (tree s) [] p = (Inr p, [], tree s)"
    using walk_existing[of "tree s" "[]" p kvs] d n by simp
  from assign_object[OF d, of "''$folded''" "JBool (\<not> b)"] obtain t1 where
    a: "assign (tree s) p ''$folded'' (JBool (\<not> b)) = Inr t1"
    and d1: "deref t1 p = JObj (AList.update ''$folded'' (JBool (\<not> b)) kvs)"
    by blast
  have "changeFold p None s =
          (Inr (), [], invokeChangeListeners [NodeArg p, ValueArg (JBool (\<not> b))] (set_tree t1 s))"
    using w d a m by (simp add: changeFold_def walkToNode_def)
  with a d1 show ?thesis by blast
qed

lemma toggleFold_twice_existing:
  assumes d: "deref (tree s) p = JObj kvs" and n: "''*'' \<notin> set p"
    and m: "map_of kvs ''$folded'' = Some (JBool b)"
  shows "tree (snd (snd (toggleFold (Array p) (snd (snd (toggleFold (Array p) s)))))) = tree s"
proof -
  from toggle_existing[OF d n m] obtain t1 where
    a: "assign (tree s) p ''$folded'' (JBool (\<not> b)) = Inr t1"
    and d1: "deref t1 p = JObj (AList.update ''$folded'' (JBool (\<not> b)) kvs)"
    and c: "changeFold p None s =
               (Inr (), [], invokeChangeListeners [NodeArg p, ValueArg (JBool (\<not> b))] (set_tree t1 s))"
    by blast
  define s1 where "s1 = invokeChangeListeners [NodeArg p, ValueArg (JBool (\<not> b))] (set_tree t1 s)"
  have ts1: "tree s1 = t1" by (simp add: s1_def)
  have m1: "map_of (AList.update ''$folded'' (JBool (\<not> b)) kvs) ''$folded'' = Some (JBool (\<not> b))"
    by (simp add: update_conv')
  from toggle_existing[of s1 p, OF _ n m1] d1 ts1 obtain t2 where
    a2: "assign t1 p ''$folded'' (JBool (\<not> \<not> b)) = Inr t2"
    and c2: "changeFold p None s1 =
               (Inr (), [], invokeChangeListeners [NodeArg p, ValueArg (JBool (\<not> \<not> b))] (set_tree t2 s1))"
    by auto
  from assign_back[OF d m a] a2 have "t2 = tree s" by simp
  then show ?thesis using c c2 by (simp add: toggleFold_def s1_def)
qed

subsection \<open>Notification and reset\<close>

text \<open>
  A call of \<^verbatim>\<open>toggleFoldAll\<close> that returns has stored the tree and has called every
  listener once, without arguments. \<^verbatim>\<open>reset\<close> stores the text of the object of
  \<^verbatim>\<open>defaultState\<close> and changes nothing else.
\<close>

lemma toggleFoldAll_notifies_once:
  assumes "toggleFoldAll (Array p) s = (Inr u, a, s')"
  shows "calls s' = calls s @ map (\<lambda>fn. (fn, [])) (changeListeners s)"
    and "localStorage s' = (localStorage s)(''foldState'' \<mapsto> JSON_stringify (tree s'))"
    and "changeListeners s' = changeListeners s"
  using assms
  by (auto simp: toggleFoldAll_def invokeChangeListeners_def set_tree_def tree_def
      split: prod.splits sum.splits ref.splits)

lemma reset_frame:
  "tree (reset s) = tree s" "changeListeners (reset s) = changeListeners s"
  "calls (reset s) = calls s"
  "localStorage (reset s) = (localStorage s)(''foldState'' \<mapsto> JSON_stringify (defaultObj s))"
  by (cases "foldState s"; simp add: reset_def tree_def)+

section \<open>The claims\<close>

text \<open>
  Claim C1 says that \<^verbatim>\<open>toggleFoldAll(['paths', '*'])\<close> flips the marker of every
  direct child of \<^verbatim>\<open>paths\<close>, leaves every other marker as it was, and calls each
  listener once, without arguments. On the service over the stored tree
  \<^verbatim>\<open>{paths: {$folded: false, '/pets': {$folded: true}}}\<close> the call returns, and
  each of the two listeners is called once without arguments, but the marker of
  \<^verbatim>\<open>/pets\<close> under \<^verbatim>\<open>paths\<close> is still \<^verbatim>\<open>true\<close>: the node the source
  looks up for the child is \<^verbatim>\<open>walkToNode([].concat(['/pets']))\<close>, which adds a node
  \<^verbatim>\<open>/pets\<close> to the root, returns the root, and so the root gets a marker
  \<^verbatim>\<open>true\<close>.
\<close>

theorem toggleFoldAll_paths_example:
  "fst (toggleFoldAll (Array [''paths'', ''*'']) pets_service) = Inr ()
   \<and> tree (snd (snd (toggleFoldAll (Array [''paths'', ''*'']) pets_service))) =
       JObj [(''paths'', JObj [(''$folded'', JBool False),
                              (''/pets'', JObj [(''$folded'', JBool True)])]),
             (''/pets'', JObj [(''$folded'', JBool False)]),
             (''$folded'', JBool True)]
   \<and> calls (snd (snd (toggleFoldAll (Array [''paths'', ''*'']) pets_service))) = [(1, []), (2, [])]"
  by code_simp

text \<open>
  Claim C2 says that \<^verbatim>\<open>isAllFolded(['paths', '*'])\<close> is \<^verbatim>\<open>true\<close> exactly when
  every direct child of \<^verbatim>\<open>paths\<close> has the marker \<^verbatim>\<open>false\<close>, and
  \<^verbatim>\<open>false\<close> when \<^verbatim>\<open>paths\<close> does not exist. On the same service the child
  \<^verbatim>\<open>/pets\<close> has the marker \<^verbatim>\<open>true\<close> and the answer is \<^verbatim>\<open>true\<close>: the
  marker read is the root's, which has none. For a first key that does not exist
  (\<^verbatim>\<open>definitions\<close> here) the answer is \<^verbatim>\<open>true\<close> as well.
\<close>

theorem isAllFolded_paths_example:
  "deref (tree pets_service) [''paths'', ''/pets'', ''$folded''] = JBool True
   \<and> fst (isAllFolded (Array [''paths'', ''*'']) pets_service) = Inr True
   \<and> deref (tree pets_service) [''definitions''] = JUndefined
   \<and> fst (isAllFolded (Array [''definitions'', ''*'']) pets_service) = Inr True"
  by code_simp

text \<open>
  Claim C3, as amended: construction reads the item \<^verbatim>\<open>foldState\<close> once and parses
  it. When the text does not parse, the parser's error is the outcome of construction.
  When it parses to a value that is not truthy, as the missing item does
  (\<^verbatim>\<open>getItem\<close> gives \<^verbatim>\<open>null\<close>), the tree is the default tree; when it parses
  to a truthy value, the tree is that value.
\<close>

theorem construct_outcomes:
  "(parse (case store ''foldState'' of None \<Rightarrow> ''null'' | Some text \<Rightarrow> text) = Inl e \<longrightarrow>
      construct parse (Some store) = Inl e)
   \<and> (parse (case store ''foldState'' of None \<Rightarrow> ''null'' | Some text \<Rightarrow> text) = Inr v \<and> \<not> truthy v \<longrightarrow>
        (\<exists>s. construct parse (Some store) = Inr s \<and> tree s = defaultState \<and> foldState s = DefaultRef))
   \<and> (parse (case store ''foldState'' of None \<Rightarrow> ''null'' | Some text \<Rightarrow> text) = Inr v \<and> truthy v \<longrightarrow>
        (\<exists>s. construct parse (Some store) = Inr s \<and> tree s = v \<and> foldState s = ParsedRef))
   \<and> (store ''foldState'' = None \<longrightarrow>
        (\<exists>s. construct JSON_parse_tree (Some store) = Inr s \<and> tree s = defaultState
           \<and> foldState s = DefaultRef))"
proof -
  have n: "JSON_parse_tree ''null'' = Inr JNull" by code_simp
  show ?thesis by (simp add: construct_def tree_def n)
qed

text \<open>The four cases of C3 at the stored texts \<^verbatim>\<open>{\<close>, \<^verbatim>\<open>false\<close> and
  \<^verbatim>\<open>{}\<close> and at the empty storage.\<close>

theorem construct_outcomes_witness:
  "JSON_parse_tree (case [''foldState'' \<mapsto> ''{''] ''foldState'' of None \<Rightarrow> ''null'' | Some text \<Rightarrow> text) = Inl SyntaxError
   \<and> construct JSON_parse_tree (Some [''foldState'' \<mapsto> ''{'']) = Inl SyntaxError
   \<and> JSON_parse_tree (case [''foldState'' \<mapsto> ''false''] ''foldState'' of None \<Rightarrow> ''null'' | Some text \<Rightarrow> text) = Inr (JBool False)
   \<and> \<not> truthy (JBool False)
   \<and> (\<exists>s. construct JSON_parse_tree (Some [''foldState'' \<mapsto> ''false'']) = Inr s \<and> tree s = defaultState \<and> foldState s = DefaultRef)
   \<and> JSON_parse_tree (case [''foldState'' \<mapsto> ''{}''] ''foldState'' of None \<Rightarrow> ''null'' | Some text \<Rightarrow> text) = Inr (JObj [])
   \<and> truthy (JObj [])
   \<and> (\<exists>s. construct JSON_parse_tree (Some [''foldState'' \<mapsto> ''{}'']) = Inr s \<and> tree s = JObj [] \<and> foldState s = ParsedRef)
   \<and> (Map.empty :: string \<rightharpoonup> string) ''foldState'' = None
   \<and> (\<exists>s. construct JSON_parse_tree (Some Map.empty) = Inr s \<and> tree s = defaultState \<and> foldState s = DefaultRef)"
proof -
  have a: "JSON_parse_tree (case [''foldState'' \<mapsto> ''{''] ''foldState'' of None \<Rightarrow> ''null'' | Some text \<Rightarrow> text) = Inl SyntaxError"
    by code_simp
  have b: "JSON_parse_tree (case [''foldState'' \<mapsto> ''false''] ''foldState'' of None \<Rightarrow> ''null'' | Some text \<Rightarrow> text) = Inr (JBool False)"
    by code_simp
  have c: "JSON_parse_tree (case [''foldState'' \<mapsto> ''{}''] ''foldState'' of None \<Rightarrow> ''null'' | Some text \<Rightarrow> text) = Inr (JObj [])"
    by code_simp
  show ?thesis
    using a b c
      construct_outcomes[of JSON_parse_tree "[''foldState'' \<mapsto> ''{'']" SyntaxError JUndefined]
      construct_outcomes[of JSON_parse_tree "[''foldState'' \<mapsto> ''false'']" SyntaxError "JBool False"]
      construct_outcomes[of JSON_parse_tree "[''foldState'' \<mapsto> ''{}'']" SyntaxError "JObj []"]
      construct_outcomes[of JSON_parse_tree Map.empty SyntaxError JUndefined]
    by simp
qed

text \<open>
  Claim C3 as it was stated says that construction never raises a parse error. With the
  text \<^verbatim>\<open>{\<close> stored under \<^verbatim>\<open>foldState\<close>, construction ends in the parser's
  \<^verbatim>\<open>SyntaxError\<close>: the call of \<^verbatim>\<open>JSON.parse\<close> stands in no
  \<^verbatim>\<open>try\<close>.
\<close>

theorem construct_parse_error_counterexample:
  "construct JSON_parse_tree (Some [''foldState'' \<mapsto> ''{'']) = Inl SyntaxError"
proof -
  have "JSON_parse_tree ''{'' = Inl SyntaxError" by code_simp
  then show ?thesis by (simp add: construct_def)
qed

text \<open>
  Claim C4 says that \<^verbatim>\<open>fold(p)\<close> followed by \<^verbatim>\<open>isFolded(p)\<close> gives
  \<^verbatim>\<open>true\<close> for every path of concrete keys. For \<^verbatim>\<open>['paths', '/users']\<close>
  on the service whose tree has no \<^verbatim>\<open>/users\<close> under \<^verbatim>\<open>paths\<close>, the call of
  \<^verbatim>\<open>fold\<close> adds the node with marker \<^verbatim>\<open>false\<close> and sets the marker of
  \<^verbatim>\<open>paths\<close>, the node it was given back; \<^verbatim>\<open>isFolded\<close> then finds the new
  node and answers \<^verbatim>\<open>false\<close>.
\<close>

theorem fold_then_isFolded_example:
  "deref (tree pets_service) [''paths'', ''/users''] = JUndefined
   \<and> fst (foldNode (Array [''paths'', ''/users'']) pets_service) = Inr ()
   \<and> fst (isFolded (Array [''paths'', ''/users''])
            (snd (snd (foldNode (Array [''paths'', ''/users'']) pets_service)))) = Inr (JBool False)
   \<and> tree (snd (snd (foldNode (Array [''paths'', ''/users'']) pets_service))) =
       JObj [(''paths'', JObj [(''$folded'', JBool True),
                              (''/pets'', JObj [(''$folded'', JBool True)]),
                              (''/users'', JObj [(''$folded'', JBool False)])])]"
  by code_simp






text \<open>
  Claim C7 says that two calls of \<^verbatim>\<open>toggleFold(p)\<close> restore the marker the node
  had. For \<^verbatim>\<open>['paths', '/users']\<close>, a node the tree does not have, the first call
  adds it unfolded and toggles \<^verbatim>\<open>paths\<close>; the second toggles the new node. After
  both, \<^verbatim>\<open>/users\<close> is folded and so is \<^verbatim>\<open>paths\<close>, which was not.
\<close>

theorem toggleFold_twice_example:
  "deref (tree pets_service) [''paths'', ''/users''] = JUndefined
   \<and> tree (snd (snd (toggleFold (Array [''paths'', ''/users''])
        (snd (snd (toggleFold (Array [''paths'', ''/users'']) pets_service)))))) =
       JObj [(''paths'', JObj [(''$folded'', JBool True),
                              (''/pets'', JObj [(''$folded'', JBool True)]),
                              (''/users'', JObj [(''$folded'', JBool True)])])]"
  by code_simp

text \<open>
  Claim C8: for an argument that is not an array, each of \<^verbatim>\<open>fold\<close>,
  \<^verbatim>\<open>unfold\<close>, \<^verbatim>\<open>toggleFold\<close>, \<^verbatim>\<open>isFolded\<close> and \<^verbatim>\<open>isAllFolded\<close>
  throws the \<^verbatim>\<open>TypeError\<close> of the array check, and the tree, the storage, the
  listeners and the argument are as before the call.
\<close>

theorem non_array_path_rejected:
  "foldNode (NotArray x) s = (Inl TypeError_path_not_array, NotArray x, s)
   \<and> unfold (NotArray x) s = (Inl TypeError_path_not_array, NotArray x, s)
   \<and> toggleFold (NotArray x) s = (Inl TypeError_path_not_array, NotArray x, s)
   \<and> isFolded (NotArray x) s = (Inl TypeError_path_not_array, NotArray x, s)
   \<and> isAllFolded (NotArray x) s = (Inl TypeError_path_not_array, NotArray x, s)"
  by (simp add: foldNode_def unfold_def toggleFold_def isFolded_def isAllFolded_def)

text \<open>
  Claim C9 says that \<^verbatim>\<open>reset()\<close> stores the default tree, every section unfolded,
  whatever the tree in memory is. In the service built without a stored item the
  variable \<^verbatim>\<open>foldState\<close> is the object of \<^verbatim>\<open>defaultState\<close> itself; after
  \<^verbatim>\<open>fold(['foldState', 'info'])\<close> the text that \<^verbatim>\<open>reset()\<close> stores has
  \<^verbatim>\<open>info\<close> folded.
\<close>

theorem reset_after_fold_example:
  \<open>fst (foldNode (Array [''foldState'', ''info'']) fresh_service) = Inr ()
   \<and> localStorage (reset (snd (snd (foldNode (Array [''foldState'', ''info'']) fresh_service)))) ''foldState''
      = Some ''{"foldState":{"info":{"$folded":true},"securityDefinitions":{"$folded":false},"tags":{"$folded":false},"paths":{"$folded":false},"definitions":{"$folded":false}}}''
   \<and> localStorage (reset (snd (snd (foldNode (Array [''foldState'', ''info'']) fresh_service)))) ''foldState''
      \<noteq> Some (JSON_stringify defaultState)\<close>
  by code_simp

text \<open>
  Claim C10: a call of \<^verbatim>\<open>fold\<close>, \<^verbatim>\<open>unfold\<close>, \<^verbatim>\<open>toggleFold\<close> or
  \<^verbatim>\<open>isFolded\<close> with an array that does not throw leaves the array empty, and
  \<^verbatim>\<open>walkToNode\<close> on the empty array returns the root.
\<close>

theorem path_argument_consumed:
  "(\<not> isl (fst (foldNode (Array p) s)) \<longrightarrow> fst (snd (foldNode (Array p) s)) = Array [])
   \<and> (\<not> isl (fst (unfold (Array p) s)) \<longrightarrow> fst (snd (unfold (Array p) s)) = Array [])
   \<and> (\<not> isl (fst (toggleFold (Array p) s)) \<longrightarrow> fst (snd (toggleFold (Array p) s)) = Array [])
   \<and> (\<not> isl (fst (isFolded (Array p) s)) \<longrightarrow> fst (snd (isFolded (Array p) s)) = Array [])
   \<and> walkToNode [] s = (Inr [], [], s)"
proof -
  have cf: "fst (snd (changeFold p v s)) = []" if "\<not> isl (fst (changeFold p v s))" for v
  proof -
    obtain r p' s' where e: "changeFold p v s = (r, p', s')" by (cases "changeFold p v s")
    with that obtain u where "r = Inr u" by (cases r) auto
    with e changeFold_returns_empty show ?thesis by fastforce
  qed
  have f: "\<not> isl (fst (foldNode (Array p) s)) \<longrightarrow> fst (snd (foldNode (Array p) s)) = Array []"
    using cf[of "Some True"] by (cases "changeFold p (Some True) s") (auto simp: foldNode_def)
  have u: "\<not> isl (fst (unfold (Array p) s)) \<longrightarrow> fst (snd (unfold (Array p) s)) = Array []"
    using cf[of "Some False"] by (cases "changeFold p (Some False) s") (auto simp: unfold_def)
  have g: "\<not> isl (fst (toggleFold (Array p) s)) \<longrightarrow> fst (snd (toggleFold (Array p) s)) = Array []"
    using cf[of None] by (cases "changeFold p None s") (auto simp: toggleFold_def)
  have i: "\<not> isl (fst (isFolded (Array p) s)) \<longrightarrow> fst (snd (isFolded (Array p) s)) = Array []"
    by (auto simp: isFolded_def split: prod.splits sum.splits if_splits
        dest: walkToNode_returns_empty)
  have w: "walkToNode [] s = (Inr [], [], s)" by (simp add: walkToNode_def)
  from f u g i w show ?thesis by blast
qed

text \<open>C10 for the path \<^verbatim>\<open>['foldState', 'info']\<close> on the service built without a
  stored item.\<close>

theorem path_argument_consumed_witness:
  "\<not> isl (fst (foldNode (Array [''foldState'', ''info'']) fresh_service))
   \<and> fst (snd (foldNode (Array [''foldState'', ''info'']) fresh_service)) = Array []
   \<and> \<not> isl (fst (unfold (Array [''foldState'', ''info'']) fresh_service))
   \<and> fst (snd (unfold (Array [''foldState'', ''info'']) fresh_service)) = Array []
   \<and> \<not> isl (fst (toggleFold (Array [''foldState'', ''info'']) fresh_service))
   \<and> fst (snd (toggleFold (Array [''foldState'', ''info'']) fresh_service)) = Array []
   \<and> \<not> isl (fst (isFolded (Array [''foldState'', ''info'']) fresh_service))
   \<and> fst (snd (isFolded (Array [''foldState'', ''info'']) fresh_service)) = Array []"
proof -
  have 1: "\<not> isl (fst (foldNode (Array [''foldState'', ''info'']) fresh_service))" by code_simp
  have 2: "\<not> isl (fst (unfold (Array [''foldState'', ''info'']) fresh_service))" by code_simp
  have 3: "\<not> isl (fst (toggleFold (Array [''foldState'', ''info'']) fresh_service))" by code_simp
  have 4: "\<not> isl (fst (isFolded (Array [''foldState'', ''info'']) fresh_service))" by code_simp
  show ?thesis
    using 1 2 3 4 path_argument_consumed[of "[''foldState'', ''info'']" fresh_service] by blast
qed

end
